theory Spec2Isabelle
  imports Main "HOL-Library.Word"
begin

section \<open>JavaScript strings\<close>

text \<open>
  A JavaScript string is a sequence of UTF-16 code units. String literals of the source
  are ASCII except for the em dash U+2014 of the attachment line, so a literal is written
  \<open>js ''...''\<close> and the em dash as the numeral \<open>0x2014\<close>.
\<close>

type_synonym code_unit = "16 word"
type_synonym jsstring = "code_unit list"

definition js :: "string \<Rightarrow> jsstring" where
  "js s = map of_char s"

text \<open>
  ECMAScript's LineTerminator and WhiteSpace productions. \<open>String.prototype.trim\<close> and
  the regular expression class \<open>\s\<close> both use their union; the regular expression
  atom \<open>.\<close> (without the \<open>s\<close> flag) is any code unit but a line terminator.
\<close>

definition isLineTerminator :: "code_unit \<Rightarrow> bool" where
  "isLineTerminator c = (c = 0x000A \<or> c = 0x000D \<or> c = 0x2028 \<or> c = 0x2029)"

definition isWhiteSpace :: "code_unit \<Rightarrow> bool" where
  "isWhiteSpace c =
     (c = 0x0009 \<or> c = 0x000B \<or> c = 0x000C \<or> c = 0x0020 \<or> c = 0x00A0 \<or> c = 0x1680 \<or>
      (0x2000 \<le> c \<and> c \<le> 0x200A) \<or> c = 0x202F \<or> c = 0x205F \<or> c = 0x3000 \<or> c = 0xFEFF)"

definition isSpace :: "code_unit \<Rightarrow> bool" where
  "isSpace c = (isWhiteSpace c \<or> isLineTerminator c)"

definition isDigit :: "code_unit \<Rightarrow> bool" where
  "isDigit c = (0x30 \<le> c \<and> c \<le> 0x39)"

text \<open>\<open>[a-z]\<close> under the \<open>i\<close> flag: the ASCII letters of either case.\<close>

definition isLetterIgnoreCase :: "code_unit \<Rightarrow> bool" where
  "isLetterIgnoreCase c = ((0x61 \<le> c \<and> c \<le> 0x7A) \<or> (0x41 \<le> c \<and> c \<le> 0x5A))"

definition isAny :: "code_unit \<Rightarrow> bool" where
  "isAny c = (\<not> isLineTerminator c)"

text \<open>\<open>s.trim()\<close>: white space and line terminators are removed from both ends.\<close>

definition trim :: "jsstring \<Rightarrow> jsstring" where
  "trim s = rev (dropWhile isSpace (rev (dropWhile isSpace s)))"

text \<open>\<open>s.startsWith(p)\<close> and \<open>s.substring(n)\<close> (the latter is \<open>drop n s\<close>).\<close>

definition startsWith :: "jsstring \<Rightarrow> jsstring \<Rightarrow> bool" where
  "startsWith s p = (take (length p) s = p)"

text \<open>
  \<open>text.split('\n')\<close>: the pieces between the line feeds, in order; a string without a
  line feed (the empty string too) gives the one-element array holding it.
\<close>

fun split_lines :: "jsstring \<Rightarrow> jsstring list" where
  "split_lines [] = [[]]"
| "split_lines (c # cs) =
     (if c = 0x000A then [] # split_lines cs
      else (case split_lines cs of
              [] \<Rightarrow> [[c]]
            | l # ls \<Rightarrow> (c # l) # ls))"

text \<open>\<open>arr.join(sep)\<close>.\<close>

fun join :: "jsstring \<Rightarrow> jsstring list \<Rightarrow> jsstring" where
  "join sep [] = []"
| "join sep [x] = x"
| "join sep (x # y # ys) = x @ sep @ join sep (y # ys)"

text \<open>
  The decimal digits of a non-negative integer, as a template literal \<open>`${n}`\<close> writes
  them.
\<close>

fun toString :: "nat \<Rightarrow> jsstring" where
  "toString n =
     (if n < 10 then [of_nat (48 + n)]
      else toString (n div 10) @ [of_nat (48 + n mod 10)])"

declare toString.simps [simp del]

text \<open>
  \<open>toLowerCase\<close> on the one-letter string captured by \<open>([a-z])\<close> under the \<open>i\<close>
  flag: the argument is an ASCII letter, and only those are mapped here.
\<close>

definition toLowerCase :: "jsstring \<Rightarrow> jsstring" where
  "toLowerCase s = map (\<lambda>c. if 0x41 \<le> c \<and> c \<le> 0x5A then c + 0x20 else c) s"

section \<open>Regular expressions\<close>

text \<open>
  The fragment of ECMAScript regular expressions that the source uses: literal
  characters, character classes, a greedy or lazy quantifier with a lower bound over a
  character class, capture groups, negative one-character lookbehind and lookahead, the
  anchors \<open>^\<close> and \<open>$\<close> (no \<open>m\<close> flag: start and end of the input), and sequencing.
\<close>

datatype regex =
    Chr code_unit
  | Cls "code_unit \<Rightarrow> bool"
  | Many bool nat "code_unit \<Rightarrow> bool"
  | Grp nat regex
  | NotBehind "code_unit \<Rightarrow> bool"
  | NotAhead "code_unit \<Rightarrow> bool"
  | Bol
  | Eol
  | Seq regex regex

type_synonym captures = "(nat \<times> jsstring) list"

text \<open>
  Backtracking as a list of successes: \<open>ms r s i cs\<close> lists, in the order in which the
  backtracking matcher tries them, the states (end index, captures) in which \<open>r\<close> can
  match \<open>s\<close> from index \<open>i\<close>. In \<open>Many greedy m p\<close> the first field says whether the
  quantifier is greedy (longest first) or lazy (shortest first).
\<close>

fun ms :: "regex \<Rightarrow> jsstring \<Rightarrow> nat \<Rightarrow> captures \<Rightarrow> (nat \<times> captures) list" where
  "ms (Chr c) s i cs = (if i < length s \<and> s ! i = c then [(Suc i, cs)] else [])"
| "ms (Cls p) s i cs = (if i < length s \<and> p (s ! i) then [(Suc i, cs)] else [])"
| "ms (Many greedy m p) s i cs =
     (let k = length (takeWhile p (drop i s));
          ends = map (\<lambda>j. (i + j, cs)) [m ..< Suc k]
      in if greedy then rev ends else ends)"
| "ms (Grp g r) s i cs =
     map (\<lambda>(e, cs'). (e, (g, take (e - i) (drop i s)) # cs')) (ms r s i cs)"
| "ms (NotBehind p) s i cs = (if 0 < i \<and> p (s ! (i - 1)) then [] else [(i, cs)])"
| "ms (NotAhead p) s i cs = (if i < length s \<and> p (s ! i) then [] else [(i, cs)])"
| "ms Bol s i cs = (if i = 0 then [(i, cs)] else [])"
| "ms Eol s i cs = (if i = length s then [(i, cs)] else [])"
| "ms (Seq r1 r2) s i cs = concat (map (\<lambda>(e, cs'). ms r2 s e cs') (ms r1 s i cs))"

text \<open>
  The result of \<open>s.match(r)\<close> for a regular expression without the \<open>g\<close> flag that has
  two capture groups, both taking part in every match: the matched text and the two
  groups. Every regular expression of the source starts with \<open>^\<close>, so a match can only
  start at index 0, and the first success from there is the match.
\<close>

record regexp_match =
  m0 :: jsstring
  m1 :: jsstring
  m2 :: jsstring

definition captured :: "captures \<Rightarrow> nat \<Rightarrow> jsstring" where
  "captured cs g = (case map_of cs g of Some t \<Rightarrow> t | None \<Rightarrow> [])"

definition match :: "regex \<Rightarrow> jsstring \<Rightarrow> regexp_match option" where
  "match r s =
     (case ms r s 0 [] of
        [] \<Rightarrow> None
      | (e, cs) # _ \<Rightarrow> Some \<lparr>m0 = take e s, m1 = captured cs 1, m2 = captured cs 2\<rparr>)"

definition seqs :: "regex list \<Rightarrow> regex" where
  "seqs rs = foldr Seq (butlast rs) (last rs)"

definition star :: code_unit where "star = 0x2A"
definition underscore :: code_unit where "underscore = 0x5F"

text \<open>\<open>/^(.*?)\*\*(.+?)\*\*/\<close>\<close>

definition boldRe :: regex where
  "boldRe = seqs [Bol, Grp 1 (Many False 0 isAny), Chr star, Chr star,
                  Grp 2 (Many False 1 isAny), Chr star, Chr star]"

text \<open>\<open>/^(.*?)__(.+?)__/\<close>\<close>

definition boldRe2 :: regex where
  "boldRe2 = seqs [Bol, Grp 1 (Many False 0 isAny), Chr underscore, Chr underscore,
                   Grp 2 (Many False 1 isAny), Chr underscore, Chr underscore]"

text \<open>\<open>/^(.*?)(?<!\*)\*([^*]+)\*(?!\*)/\<close>\<close>

definition italicRe :: regex where
  "italicRe = seqs [Bol, Grp 1 (Many False 0 isAny), NotBehind (\<lambda>c. c = star), Chr star,
                    Grp 2 (Many True 1 (\<lambda>c. c \<noteq> star)), Chr star, NotAhead (\<lambda>c. c = star)]"

text \<open>\<open>/^(.*?)(?<!_)_([^_]+)_(?!_)/\<close>\<close>

definition italicRe2 :: regex where
  "italicRe2 = seqs [Bol, Grp 1 (Many False 0 isAny), NotBehind (\<lambda>c. c = underscore),
                     Chr underscore, Grp 2 (Many True 1 (\<lambda>c. c \<noteq> underscore)),
                     Chr underscore, NotAhead (\<lambda>c. c = underscore)]"

text \<open>\<open>/^(\d+)\.\s+(.*)$/\<close>\<close>

definition numberedRe :: regex where
  "numberedRe = seqs [Bol, Grp 1 (Many True 1 isDigit), Chr 0x2E, Many True 1 isSpace,
                      Grp 2 (Many True 0 isAny), Eol]"

text \<open>\<open>/^([a-z])[.)]\s+(.*)$/i\<close>\<close>

definition subItemRe :: regex where
  "subItemRe = seqs [Bol, Grp 1 (Cls isLetterIgnoreCase), Cls (\<lambda>c. c = 0x2E \<or> c = 0x29),
                     Many True 1 isSpace, Grp 2 (Many True 0 isAny), Eol]"

text \<open>
  Every match consumes at least \<open>minlen r\<close> code units and ends inside the input; the
  loop of the inline parser terminates because each of its four patterns consumes at
  least three.
\<close>

fun minlen :: "regex \<Rightarrow> nat" where
  "minlen (Chr c) = 1"
| "minlen (Cls p) = 1"
| "minlen (Many greedy m p) = m"
| "minlen (Grp g r) = minlen r"
| "minlen (NotBehind p) = 0"
| "minlen (NotAhead p) = 0"
| "minlen Bol = 0"
| "minlen Eol = 0"
| "minlen (Seq r1 r2) = minlen r1 + minlen r2"

lemma ms_consumes: "(e, cs') \<in> set (ms r s i cs) \<Longrightarrow> i + minlen r \<le> e"
proof (induction r arbitrary: i cs e cs')
  case (Seq r1 r2)
  then obtain e1 c1 where a: "(e1, c1) \<in> set (ms r1 s i cs)" and b: "(e, cs') \<in> set (ms r2 s e1 c1)"
    by auto
  from Seq.IH(1) [OF a] Seq.IH(2) [OF b] show ?case by simp
qed (auto split: if_splits simp: Let_def)

lemma takeWhile_drop_bound: "i \<le> length s \<Longrightarrow> i + length (takeWhile p (drop i s)) \<le> length s"
proof -
  assume "i \<le> length s"
  moreover have "length (takeWhile p (drop i s)) \<le> length (drop i s)"
    by (rule length_takeWhile_le)
  ultimately show ?thesis by simp
qed

lemma ms_bound: "(e, cs') \<in> set (ms r s i cs) \<Longrightarrow> i \<le> length s \<Longrightarrow> e \<le> length s"
proof (induction r arbitrary: i cs e cs')
  case (Many greedy m p)
  then obtain j where j: "e = i + j" "j \<le> length (takeWhile p (drop i s))"
    by (auto simp: Let_def split: if_splits)
  with takeWhile_drop_bound [OF Many.prems(2), of p] show ?case by simp
next
  case (Seq r1 r2)
  then obtain e1 c1 where a: "(e1, c1) \<in> set (ms r1 s i cs)" and b: "(e, cs') \<in> set (ms r2 s e1 c1)"
    by auto
  from Seq.IH(1) [OF a Seq.prems(2)] Seq.IH(2) [OF b] show ?case by simp
qed (auto split: if_splits)

lemma match_consumes:
  assumes "match r s = Some m"
  shows "minlen r \<le> length (m0 m)"
proof -
  from assms obtain e cs rest where ms: "ms r s 0 [] = (e, cs) # rest" and m: "m0 m = take e s"
    by (auto simp: match_def split: list.splits)
  from ms have mem: "(e, cs) \<in> set (ms r s 0 [])" by simp
  from ms_consumes [OF mem] ms_bound [OF mem] m show ?thesis by simp
qed

section \<open>Text runs and paragraphs\<close>

text \<open>
  The options objects handed to the document library's \<open>TextRun\<close> and \<open>Paragraph\<close>
  constructors. A property the source leaves out is \<open>None\<close>. Sizes are the library's
  half-points, spacings its twentieths of a point; the left indent is kept as the argument
  of \<open>convertInchesToTwip\<close>, in hundredths of an inch.
\<close>

record TextRun =
  text' :: jsstring
  bold :: "bool option"
  italics :: "bool option"
  color :: "jsstring option"
  size' :: "nat option"

record spacing_options =
  before :: "nat option"
  after :: "nat option"

record Paragraph =
  children :: "TextRun list"
  spacing :: "spacing_options option"
  bullet_level :: "nat option"
  indent_left :: "nat option"

section \<open>The inline parser\<close>

datatype run_type = Bold | Italic

record candidate =
  ctype :: run_type
  cmatch :: regexp_match
  cindex :: nat

definition mkCandidate :: "run_type \<Rightarrow> regexp_match \<Rightarrow> candidate" where
  "mkCandidate t m = \<lparr>ctype = t, cmatch = m, cindex = length (m1 m)\<rparr>"

text \<open>
  The array \<open>candidates\<close>: the four optional matches in the order bold, bold, italic,
  italic, with the missing ones filtered out.
\<close>

definition mkCandidates ::
  "regexp_match option \<Rightarrow> regexp_match option \<Rightarrow> regexp_match option \<Rightarrow> regexp_match option
     \<Rightarrow> candidate list" where
  "mkCandidates boldMatch boldMatch2 italicMatch italicMatch2 =
     List.map_filter id
       [map_option (mkCandidate Bold) boldMatch,
        map_option (mkCandidate Bold) boldMatch2,
        map_option (mkCandidate Italic) italicMatch,
        map_option (mkCandidate Italic) italicMatch2]"

text \<open>The bold candidates come first in the array, the italic ones after them.\<close>

definition boldCandidates :: "regexp_match option \<Rightarrow> regexp_match option \<Rightarrow> candidate list" where
  "boldCandidates b1 b2 = List.map_filter id [map_option (mkCandidate Bold) b1, map_option (mkCandidate Bold) b2]"

definition italicCandidates :: "regexp_match option \<Rightarrow> regexp_match option \<Rightarrow> candidate list" where
  "italicCandidates i1 i2 = List.map_filter id [map_option (mkCandidate Italic) i1, map_option (mkCandidate Italic) i2]"

text \<open>
  \<open>candidates.sort((a, b) => a.index - b.index)\<close> followed by \<open>candidates[0]\<close>:
  \<open>Array.prototype.sort\<close> is stable, as \<open>sort_key\<close> is.
\<close>

definition pickFirst :: "candidate list \<Rightarrow> candidate option" where
  "pickFirst candidates =
     (case sort_key cindex candidates of [] \<Rightarrow> None | c # _ \<Rightarrow> Some c)"

definition candidates :: "jsstring \<Rightarrow> candidate list" where
  "candidates remaining =
     mkCandidates (match boldRe remaining) (match boldRe2 remaining)
                  (match italicRe remaining) (match italicRe2 remaining)"

definition firstMatch :: "jsstring \<Rightarrow> candidate option" where
  "firstMatch remaining = pickFirst (candidates remaining)"

definition plainRun :: "jsstring \<Rightarrow> TextRun" where
  "plainRun t = \<lparr>text' = t, bold = None, italics = None, color = Some (js ''000000''), size' = Some 20\<rparr>"

definition boldRun :: "jsstring \<Rightarrow> TextRun" where
  "boldRun t = \<lparr>text' = t, bold = Some True, italics = None, color = Some (js ''000000''), size' = Some 20\<rparr>"

definition italicRun :: "jsstring \<Rightarrow> TextRun" where
  "italicRun t = \<lparr>text' = t, bold = None, italics = Some True, color = Some (js ''000000''), size' = Some 20\<rparr>"

lemma pickFirst_mem: "pickFirst cs = Some c \<Longrightarrow> c \<in> set cs"
proof -
  assume "pickFirst cs = Some c"
  then obtain rest where "sort_key cindex cs = c # rest"
    by (auto simp: pickFirst_def split: list.splits)
  then have "c \<in> set (sort_key cindex cs)" by simp
  then show ?thesis by simp
qed

lemma map_filter_id_mem: "c \<in> set (List.map_filter id xs) \<longleftrightarrow> Some c \<in> set xs"
  by (induction xs) (auto simp: List.map_filter_def)

lemma mkCandidate_match: "Some c = map_option (mkCandidate t) x \<Longrightarrow> x = Some (cmatch c)"
  by (cases x) (auto simp: mkCandidate_def)

lemma mkCandidates_mem:
  assumes "c \<in> set (mkCandidates b1 b2 i1 i2)"
  shows "\<exists>m. cmatch c = m \<and> (b1 = Some m \<or> b2 = Some m \<or> i1 = Some m \<or> i2 = Some m)"
proof -
  from assms have "Some c \<in> set [map_option (mkCandidate Bold) b1, map_option (mkCandidate Bold) b2,
      map_option (mkCandidate Italic) i1, map_option (mkCandidate Italic) i2]"
    unfolding mkCandidates_def by (simp only: map_filter_id_mem)
  then show ?thesis
    by (auto dest: mkCandidate_match)
qed

lemma firstMatch_consumes:
  assumes "firstMatch remaining = Some fm"
  shows "3 \<le> length (m0 (cmatch fm))"
proof -
  from assms have "fm \<in> set (mkCandidates (match boldRe remaining) (match boldRe2 remaining)
                             (match italicRe remaining) (match italicRe2 remaining))"
    unfolding firstMatch_def candidates_def by (rule pickFirst_mem)
  from mkCandidates_mem [OF this] consider
      "match boldRe remaining = Some (cmatch fm)"
    | "match boldRe2 remaining = Some (cmatch fm)"
    | "match italicRe remaining = Some (cmatch fm)"
    | "match italicRe2 remaining = Some (cmatch fm)"
    by auto
  then show ?thesis
  proof cases
    case 1
    from match_consumes [OF 1] show ?thesis by (simp add: boldRe_def seqs_def)
  next
    case 2
    from match_consumes [OF 2] show ?thesis by (simp add: boldRe2_def seqs_def)
  next
    case 3
    from match_consumes [OF 3] show ?thesis by (simp add: italicRe_def seqs_def)
  next
    case 4
    from match_consumes [OF 4] show ?thesis by (simp add: italicRe2_def seqs_def)
  qed
qed

lemma firstMatch_shrinks:
  assumes "firstMatch remaining = Some fm" and "remaining \<noteq> []"
  shows "length (drop (length (m0 (cmatch fm))) remaining) < length remaining"
proof -
  from firstMatch_consumes [OF assms(1)] have "0 < length (m0 (cmatch fm))" by arith
  moreover from assms(2) have "0 < length remaining" by simp
  ultimately have "length remaining - length (m0 (cmatch fm)) < length remaining" by arith
  then show ?thesis by (simp only: length_drop)
qed

text \<open>
  The \<open>while\<close> loop of \<open>parseInlineMarkdown\<close>: the runs it pushes, in order, for the
  text that remains.
\<close>

function parseInlineLoop :: "jsstring \<Rightarrow> TextRun list" where
  "parseInlineLoop remaining =
     (if length remaining > 0 then
        (case firstMatch remaining of
           Some fm \<Rightarrow>
             (let beforeText = m1 (cmatch fm);
                  formattedText = m2 (cmatch fm)
              in (if beforeText \<noteq> [] then [plainRun beforeText] else []) @
                 [if ctype fm = Bold then boldRun formattedText else italicRun formattedText] @
                 parseInlineLoop (drop (length (m0 (cmatch fm))) remaining))
         | None \<Rightarrow> [plainRun remaining])
      else [])"
  by pat_completeness auto
termination
proof (relation "measure length")
  show "wf (measure length)" by simp
next
  fix remaining fm
  assume "0 < length remaining" and "firstMatch remaining = Some fm"
  then have "length (drop (length (m0 (cmatch fm))) remaining) < length remaining"
    by (intro firstMatch_shrinks) auto
  then show "(drop (length (m0 (cmatch fm))) remaining, remaining) \<in> measure length"
    by simp
qed

declare parseInlineLoop.simps [simp del]

definition parseInlineMarkdown :: "jsstring \<Rightarrow> TextRun list" where
  "parseInlineMarkdown t =
     (let runs = parseInlineLoop t
      in if length runs > 0 then runs else [plainRun t])"

section \<open>The markdown compiler\<close>

text \<open>
  The body of the \<open>forEach\<close> callback of \<open>parseMarkdownToParagraphs\<close> after the line
  has been trimmed: given \<open>currentListNumber\<close> and \<open>trimmedLine\<close>, the new value of
  the counter and the paragraph that is pushed. The tests are made in the order of the
  source; each branch of the source ends with \<open>return\<close>. A \<open>Paragraph\<close> built
  without \<open>children\<close> has none.
\<close>

definition classifyLine :: "nat \<Rightarrow> jsstring \<Rightarrow> nat \<times> Paragraph" where
  "classifyLine currentListNumber trimmedLine =
     (if trimmedLine = [] then
        (currentListNumber,
         \<lparr>children = [], spacing = Some \<lparr>before = None, after = Some 100\<rparr>,
          bullet_level = None, indent_left = None\<rparr>)
      else if startsWith trimmedLine (js ''### '') then
        (currentListNumber,
         \<lparr>children = [\<lparr>text' = drop 4 trimmedLine, bold = Some True, italics = None,
                        color = Some (js ''000000''), size' = Some 22\<rparr>],
          spacing = Some \<lparr>before = Some 150, after = Some 80\<rparr>,
          bullet_level = None, indent_left = None\<rparr>)
      else if startsWith trimmedLine (js ''## '') then
        (currentListNumber,
         \<lparr>children = [\<lparr>text' = drop 3 trimmedLine, bold = Some True, italics = None,
                        color = Some (js ''000000''), size' = Some 24\<rparr>],
          spacing = Some \<lparr>before = Some 200, after = Some 100\<rparr>,
          bullet_level = None, indent_left = None\<rparr>)
      else if startsWith trimmedLine (js ''# '') then
        (currentListNumber,
         \<lparr>children = [\<lparr>text' = drop 2 trimmedLine, bold = Some True, italics = None,
                        color = Some (js ''000000''), size' = Some 28\<rparr>],
          spacing = Some \<lparr>before = Some 250, after = Some 120\<rparr>,
          bullet_level = None, indent_left = None\<rparr>)
      else if startsWith trimmedLine (js ''- '') \<or> startsWith trimmedLine (js ''* '') then
        (0,
         \<lparr>children = parseInlineMarkdown (drop 2 trimmedLine),
          spacing = Some \<lparr>before = None, after = Some 60\<rparr>,
          bullet_level = Some 0, indent_left = None\<rparr>)
      else
        (case match numberedRe trimmedLine of
           Some numberedMatch \<Rightarrow>
             (currentListNumber + 1,
              \<lparr>children =
                 \<lparr>text' = toString (currentListNumber + 1) @ js ''. '', bold = Some True,
                  italics = None, color = Some (js ''000000''), size' = None\<rparr>
                 # parseInlineMarkdown (m2 numberedMatch),
               spacing = Some \<lparr>before = None, after = Some 60\<rparr>,
               bullet_level = None, indent_left = Some 25\<rparr>)
         | None \<Rightarrow>
             (case match subItemRe trimmedLine of
                Some subItemMatch \<Rightarrow>
                  (currentListNumber,
                   \<lparr>children =
                      \<lparr>text' = toLowerCase (m1 subItemMatch) @ js ''. '', bold = None,
                       italics = None, color = Some (js ''000000''), size' = None\<rparr>
                      # parseInlineMarkdown (m2 subItemMatch),
                    spacing = Some \<lparr>before = None, after = Some 60\<rparr>,
                    bullet_level = None, indent_left = Some 50\<rparr>)
              | None \<Rightarrow>
                  (0,
                   \<lparr>children = parseInlineMarkdown trimmedLine,
                    spacing = Some \<lparr>before = None, after = Some 80\<rparr>,
                    bullet_level = None, indent_left = None\<rparr>))))"

text \<open>One turn of the \<open>forEach\<close> loop: the line is trimmed, then classified.\<close>

definition processLine :: "nat \<Rightarrow> jsstring \<Rightarrow> nat \<times> Paragraph" where
  "processLine currentListNumber line = classifyLine currentListNumber (trim line)"

text \<open>The loop over the lines, threading \<open>currentListNumber\<close>.\<close>

fun processLines :: "nat \<Rightarrow> jsstring list \<Rightarrow> Paragraph list" where
  "processLines currentListNumber [] = []"
| "processLines currentListNumber (line # rest) =
     (case processLine currentListNumber line of
        (n', p) \<Rightarrow> p # processLines n' rest)"

definition placeholderParagraph :: "jsstring \<Rightarrow> Paragraph" where
  "placeholderParagraph t =
     \<lparr>children = [\<lparr>text' = t, bold = None, italics = Some True,
                    color = Some (js ''9ca3af''), size' = Some 20\<rparr>],
      spacing = None, bullet_level = None, indent_left = None\<rparr>"

definition parseMarkdownToParagraphs :: "jsstring \<Rightarrow> Paragraph list" where
  "parseMarkdownToParagraphs t =
     (if t = [] \<or> trim t = [] then [placeholderParagraph (js ''No content provided'')]
      else processLines 0 (split_lines t))"

text \<open>
  The kind of block a trimmed line gives, read off the same chain of tests. The source
  has no such value; it names the branch taken.
\<close>

datatype block_kind =
  Blank | Heading1 | Heading2 | Heading3 | Bullet | Ordered | LetteredSub | PlainParagraph

definition lineKind :: "jsstring \<Rightarrow> block_kind" where
  "lineKind trimmedLine =
     (if trimmedLine = [] then Blank
      else if startsWith trimmedLine (js ''### '') then Heading3
      else if startsWith trimmedLine (js ''## '') then Heading2
      else if startsWith trimmedLine (js ''# '') then Heading1
      else if startsWith trimmedLine (js ''- '') \<or> startsWith trimmedLine (js ''* '') then Bullet
      else if match numberedRe trimmedLine \<noteq> None then Ordered
      else if match subItemRe trimmedLine \<noteq> None then LetteredSub
      else PlainParagraph)"

text \<open>The texts of the runs of each paragraph, for reading a compiled document.\<close>

definition paragraphTexts :: "Paragraph list \<Rightarrow> jsstring list list" where
  "paragraphTexts ps = map (\<lambda>p. map text' (children p)) ps"

section \<open>The attachment and impact lines of the report\<close>

text \<open>
  The two fragments of \<open>generateIncidentReportDocx\<close> that build the paragraphs of the
  Attachments box and the first paragraph of the Impact box, as functions of the fields
  of the report data they read.
\<close>

record Attachment =
  id' :: jsstring
  nameOrLink :: jsstring
  description :: jsstring

definition attachmentParagraph :: "Attachment \<Rightarrow> nat \<Rightarrow> Paragraph" where
  "attachmentParagraph att idx =
     \<lparr>children =
        [\<lparr>text' = toString (idx + 1) @ js ''. '', bold = Some True, italics = None,
          color = Some (js ''000000''), size' = Some 20\<rparr>,
         \<lparr>text' = (if nameOrLink att \<noteq> [] then nameOrLink att
                    else js ''Attachment '' @ toString (idx + 1)),
          bold = Some True, italics = None, color = Some (js ''000000''), size' = Some 20\<rparr>]
        @ (if description att \<noteq> []
           then [\<lparr>text' = [0x20, 0x2014, 0x20] @ description att, bold = None, italics = None,
                  color = Some (js ''000000''), size' = Some 20\<rparr>]
           else []),
      spacing = Some \<lparr>before = None, after = Some 60\<rparr>,
      bullet_level = None, indent_left = Some 15\<rparr>"

definition attachmentParagraphs :: "Attachment list \<Rightarrow> Paragraph list" where
  "attachmentParagraphs attachments =
     (if length attachments > 0
      then map (\<lambda>(att, idx). attachmentParagraph att idx)
               (zip attachments [0 ..< length attachments])
      else [placeholderParagraph (js ''No attachments'')])"

definition impactList :: "jsstring list \<Rightarrow> jsstring \<Rightarrow> jsstring" where
  "impactList impactCategories impactOthersSpecify =
     join (js '', '')
       (map (\<lambda>cat. if cat = js ''Others'' \<and> impactOthersSpecify \<noteq> []
                   then js ''Others ('' @ impactOthersSpecify @ js '')''
                   else cat)
            impactCategories)"

definition impactParagraph :: "jsstring list \<Rightarrow> jsstring \<Rightarrow> Paragraph" where
  "impactParagraph impactCategories impactOthersSpecify =
     (let il = impactList impactCategories impactOthersSpecify
      in \<lparr>children =
            [\<lparr>text' = js ''Impacted Parties: '', bold = Some True, italics = None,
              color = Some (js ''000000''), size' = Some 20\<rparr>,
             \<lparr>text' = (if il \<noteq> [] then il else js ''None selected''),
              bold = None, italics = Some (il = []),
              color = Some (if il \<noteq> [] then js ''000000'' else js ''9ca3af''),
              size' = Some 20\<rparr>],
          spacing = Some \<lparr>before = None, after = Some 120\<rparr>,
          bullet_level = None, indent_left = None\<rparr>)"

text \<open>The text of a paragraph as it reads: the texts of its runs, one after the other.\<close>

definition lineText :: "Paragraph \<Rightarrow> jsstring" where
  "lineText p = concat (map text' (children p))"

section \<open>The editor sync controller\<close>

text \<open>
  The state of one \<open>RichTextArea\<close>: the two refs, the content last handed to the editor,
  by the user or by \<open>setContent\<close> (\<open>None\<close> while \<open>useEditor\<close> has not yet produced the
  editor; how the editor normalises what it is handed, such as the empty string to an
  empty paragraph, is not modelled), the values handed to \<open>onChange\<close> so far, and the
  number of \<open>setTimeout\<close> callbacks that have been scheduled and have not run yet. The
  two converter libraries are parameters.
\<close>

record sync_state =
  isUpdatingFromProp :: bool
  lastExternalValue :: jsstring
  editor :: "jsstring option"
  emitted :: "jsstring list"
  pendingTimeouts :: nat

definition markdownToHtml :: "(jsstring \<Rightarrow> jsstring) \<Rightarrow> jsstring \<Rightarrow> jsstring" where
  "markdownToHtml makeHtml markdown = (if markdown = [] then [] else makeHtml markdown)"

definition htmlToMarkdown :: "(jsstring \<Rightarrow> jsstring) \<Rightarrow> jsstring \<Rightarrow> jsstring" where
  "htmlToMarkdown turndown html =
     (if html = [] \<or> html = js ''<p></p>'' then [] else turndown html)"

text \<open>
  A local edit: the user changes the content of the editor to \<open>html\<close> and the editor
  calls \<open>onUpdate\<close>.
\<close>

definition onUpdate :: "(jsstring \<Rightarrow> jsstring) \<Rightarrow> jsstring \<Rightarrow> sync_state \<Rightarrow> sync_state" where
  "onUpdate turndown html s =
     (let s' = s\<lparr>editor := Some html\<rparr>
      in if isUpdatingFromProp s' then s'
         else (let markdown = htmlToMarkdown turndown html
               in s'\<lparr>lastExternalValue := markdown, emitted := emitted s' @ [markdown]\<rparr>))"

text \<open>
  The effect that runs when the \<open>value\<close> prop changes. \<open>setContent\<close> is called with
  \<open>emitUpdate: false\<close>, so it does not call \<open>onUpdate\<close>.
\<close>

definition externalValueChange ::
  "(jsstring \<Rightarrow> jsstring) \<Rightarrow> jsstring \<Rightarrow> sync_state \<Rightarrow> sync_state" where
  "externalValueChange makeHtml v s =
     (if editor s \<noteq> None \<and> v \<noteq> lastExternalValue s
      then s\<lparr>isUpdatingFromProp := True,
             lastExternalValue := v,
             editor := Some (markdownToHtml makeHtml v),
             pendingTimeouts := pendingTimeouts s + 1\<rparr>
      else s)"

text \<open>A scheduled \<open>setTimeout\<close> callback runs: the suppression window closes.\<close>

definition timeoutFires :: "sync_state \<Rightarrow> sync_state" where
  "timeoutFires s =
     (if pendingTimeouts s > 0
      then s\<lparr>isUpdatingFromProp := False, pendingTimeouts := pendingTimeouts s - 1\<rparr>
      else s)"

section \<open>Dates\<close>


















section \<open>Evaluation and auxiliary facts\<close>

lemmas string_defs = js_def isLineTerminator_def isWhiteSpace_def isSpace_def isDigit_def
  isLetterIgnoreCase_def isAny_def trim_def startsWith_def toString.simps toLowerCase_def

lemmas regex_defs = match_def captured_def seqs_def star_def underscore_def boldRe_def boldRe2_def
  italicRe_def italicRe2_def numberedRe_def subItemRe_def

lemmas inline_defs = mkCandidate_def mkCandidates_def List.map_filter_def pickFirst_def
  candidates_def firstMatch_def plainRun_def boldRun_def italicRun_def parseInlineLoop.simps
  parseInlineMarkdown_def

lemmas compiler_defs = classifyLine_def processLine_def placeholderParagraph_def
  parseMarkdownToParagraphs_def lineKind_def

lemma trim_no_leading: "dropWhile isSpace (trim s) = trim s"
proof (cases "trim s = []")
  case True
  then show ?thesis by simp
next
  case False
  let ?ys = "dropWhile isSpace s"
  from False have ne: "dropWhile isSpace (rev ?ys) \<noteq> []" by (simp add: trim_def)
  have ys: "?ys \<noteq> []"
  proof
    assume "?ys = []"
    with ne show False by simp
  qed
  then have nhd: "\<not> isSpace (hd ?ys)" by (rule hd_dropWhile)
  from ys have mem: "hd ?ys \<in> set (rev ?ys)" by simp
  have "last (dropWhile isSpace (rev ?ys)) = last (rev ?ys)"
    using mem nhd by (rule dropWhile_last [where P = isSpace])
  with ys have "last (dropWhile isSpace (rev ?ys)) = hd ?ys" by (simp add: last_rev)
  with ne have "hd (trim s) = hd ?ys" by (simp add: trim_def hd_rev)
  with nhd False show ?thesis by (simp add: dropWhile_eq_self_iff)
qed

lemma trim_no_trailing: "dropWhile isSpace (rev (trim s)) = rev (trim s)"
  by (simp add: trim_def)

lemma trim_idem: "trim (trim s) = trim s"
proof -
  have "trim (trim s) = rev (dropWhile isSpace (rev (dropWhile isSpace (trim s))))"
    by (simp only: trim_def)
  also have "\<dots> = rev (dropWhile isSpace (rev (trim s)))" by (simp only: trim_no_leading)
  also have "\<dots> = trim s" by (simp only: trim_no_trailing rev_rev_ident)
  finally show ?thesis .
qed

lemma trim_ends:
  assumes "trim s \<noteq> []"
  shows "\<not> isSpace (hd (trim s))" and "\<not> isSpace (last (trim s))"
proof -
  from trim_no_leading [of s] assms show "\<not> isSpace (hd (trim s))"
    by (simp add: dropWhile_eq_self_iff)
  from trim_no_trailing [of s] assms have "\<not> isSpace (hd (rev (trim s)))"
    by (simp add: dropWhile_eq_self_iff)
  with assms show "\<not> isSpace (last (trim s))" by (simp add: hd_rev)
qed

lemma split_lines_nonempty: "split_lines t \<noteq> []"
  by (induction t) (auto split: list.splits)

lemma length_processLines: "length (processLines n ls) = length ls"
  by (induction ls arbitrary: n) (auto split: prod.splits)

lemma pickFirst_least:
  assumes "pickFirst cs = Some c"
  shows "\<forall>x\<in>set cs. cindex c \<le> cindex x"
proof -
  from assms obtain rest where srt: "sort_key cindex cs = c # rest"
    by (auto simp: pickFirst_def split: list.splits)
  have "sorted (map cindex (sort_key cindex cs))" by (rule sorted_sort_key)
  with srt have "\<forall>x\<in>set (c # rest). cindex c \<le> cindex x" by simp
  moreover have "set cs = set (c # rest)" using srt set_sort [of cindex cs] by simp
  ultimately show ?thesis by (simp only:)
qed

lemma pickFirst_stable:
  assumes "pickFirst cs = Some c"
  shows "c = hd (filter (\<lambda>y. cindex y = cindex c) cs)"
proof -
  from assms obtain rest where srt: "sort_key cindex cs = c # rest"
    by (auto simp: pickFirst_def split: list.splits)
  have "filter (\<lambda>y. cindex y = cindex c) cs = filter (\<lambda>y. cindex y = cindex c) (sort_key cindex cs)"
    by (simp only: sort_key_stable)
  also have "\<dots> = c # filter (\<lambda>y. cindex y = cindex c) rest" by (simp add: srt)
  finally show ?thesis by simp
qed

lemma mkCandidates_split: "mkCandidates b1 b2 i1 i2 = boldCandidates b1 b2 @ italicCandidates i1 i2"
  by (simp add: mkCandidates_def boldCandidates_def italicCandidates_def List.map_filter_def)

lemma mkCandidate_type: "Some c = map_option (mkCandidate t) x \<Longrightarrow> ctype c = t"
  by (cases x) (auto simp: mkCandidate_def)

lemma boldCandidates_type: "x \<in> set (boldCandidates b1 b2) \<Longrightarrow> ctype x = Bold"
  unfolding boldCandidates_def map_filter_id_mem by (auto dest: mkCandidate_type)

lemma italicCandidates_type: "x \<in> set (italicCandidates i1 i2) \<Longrightarrow> ctype x = Italic"
  unfolding italicCandidates_def map_filter_id_mem by (auto dest: mkCandidate_type)

lemma pickFirst_bold:
  assumes pick: "pickFirst (mkCandidates b1 b2 i1 i2) = Some c"
      and mem: "b \<in> set (mkCandidates b1 b2 i1 i2)"
      and bold: "ctype b = Bold"
      and least: "\<forall>x\<in>set (mkCandidates b1 b2 i1 i2). cindex b \<le> cindex x"
  shows "ctype c = Bold"
proof -
  let ?bs = "boldCandidates b1 b2" and ?is = "italicCandidates i1 i2"
  let ?same = "\<lambda>y. cindex y = cindex c"
  from pickFirst_mem [OF pick] least have "cindex b \<le> cindex c" by simp
  moreover from pickFirst_least [OF pick] mem have "cindex c \<le> cindex b" by simp
  ultimately have eq: "cindex b = cindex c" by simp
  from mem bold have "b \<in> set ?bs"
    using italicCandidates_type [of b i1 i2] by (auto simp: mkCandidates_split)
  with eq have ne: "filter ?same ?bs \<noteq> []" by (auto simp: filter_empty_conv)
  from pickFirst_stable [OF pick] have "c = hd (filter ?same ?bs @ filter ?same ?is)"
    by (simp add: mkCandidates_split)
  with ne have c: "hd (filter ?same ?bs) = c" by simp
  from ne have "hd (filter ?same ?bs) \<in> set (filter ?same ?bs)" by (rule hd_in_set)
  then have "hd (filter ?same ?bs) \<in> set ?bs" by simp
  then have "c \<in> set ?bs" by (simp only: c)
  then show ?thesis by (rule boldCandidates_type)
qed

lemmas report_defs = attachmentParagraph_def attachmentParagraphs_def impactList_def
  impactParagraph_def lineText_def placeholderParagraph_def paragraphTexts_def

lemmas sync_defs = markdownToHtml_def htmlToMarkdown_def onUpdate_def externalValueChange_def
  timeoutFires_def

lemma processLines_trim: "processLines n ls = processLines n (map trim ls)"
  by (induction ls arbitrary: n) (auto simp: processLine_def trim_idem split: prod.splits)

lemma startsWith_h1:
  assumes "startsWith t (js ''# '')"
  shows "t \<noteq> []" and "\<not> startsWith t (js ''## '')" and "\<not> startsWith t (js ''### '')"
  using assms by (cases t; cases "tl t"; auto simp: startsWith_def js_def)+

lemma startsWith_h2:
  assumes "startsWith t (js ''## '')"
  shows "t \<noteq> []" and "\<not> startsWith t (js ''### '')"
  using assms by (cases t; cases "tl t"; cases "tl (tl t)"; auto simp: startsWith_def js_def)+

lemma startsWith_h3:
  assumes "startsWith t (js ''### '')"
  shows "t \<noteq> []"
  using assms by (auto simp: startsWith_def js_def)

lemma lineKind_Ordered:
  assumes "lineKind t = Ordered"
  shows "t \<noteq> []" "\<not> startsWith t (js ''### '')" "\<not> startsWith t (js ''## '')"
    "\<not> startsWith t (js ''# '')" "\<not> startsWith t (js ''- '')" "\<not> startsWith t (js ''* '')"
    "match numberedRe t \<noteq> None"
  using assms by (auto simp: lineKind_def split: if_splits)

lemma classifyLine_Ordered:
  assumes "lineKind t = Ordered" and "match numberedRe t = Some m"
  shows "classifyLine n t =
      (Suc n,
       \<lparr>children = \<lparr>text' = toString (Suc n) @ js ''. '', bold = Some True, italics = None,
                    color = Some (js ''000000''), size' = None\<rparr> # parseInlineMarkdown (m2 m),
        spacing = Some \<lparr>before = None, after = Some 60\<rparr>,
        bullet_level = None, indent_left = Some 25\<rparr>)"
  using lineKind_Ordered [OF assms(1)] assms(2) by (simp add: classifyLine_def)

lemma classifyLine_counter:
  "fst (classifyLine n t) =
     (case lineKind t of Ordered \<Rightarrow> Suc n | Bullet \<Rightarrow> 0 | PlainParagraph \<Rightarrow> 0 | _ \<Rightarrow> n)"
  by (auto simp: classifyLine_def lineKind_def split: option.splits)

lemma attachmentParagraphs_nth:
  assumes "i < length attachments"
  shows "attachmentParagraphs attachments ! i = attachmentParagraph (attachments ! i) i"
  using assms by (auto simp: attachmentParagraphs_def)

lemma lineText_attachmentParagraph:
  "lineText (attachmentParagraph att idx) =
     toString (idx + 1) @ js ''. '' @
     (if nameOrLink att \<noteq> [] then nameOrLink att else js ''Attachment '' @ toString (idx + 1)) @
     (if description att \<noteq> [] then [0x20, 0x2014, 0x20] @ description att else [])"
  by (simp add: lineText_def attachmentParagraph_def)

lemma join_empty_iff: "sep \<noteq> [] \<Longrightarrow> join sep xs = [] \<longleftrightarrow> xs = [] \<or> xs = [[]]"
  by (induction sep xs rule: join.induct) auto

lemma impactList_empty_iff: "impactList cats spec = [] \<longleftrightarrow> cats = [] \<or> cats = [[]]"
proof -
  let ?f = "\<lambda>cat. if cat = js ''Others'' \<and> spec \<noteq> [] then js ''Others ('' @ spec @ js '')'' else cat"
  have sep: "js '', '' \<noteq> []" by (simp add: js_def)
  have f: "\<And>c. ?f c = [] \<longleftrightarrow> c = []" by (simp add: js_def)
  have "map ?f cats = [[]] \<longleftrightarrow> cats = [[]]"
    using f by (cases cats) (auto simp del: append_is_Nil_conv)
  then show ?thesis
    unfolding impactList_def join_empty_iff [OF sep] by simp
qed

lemma processLines_two_ordered:
  assumes "lineKind (trim l2) = Ordered"
  shows "map text' (take 1 (children (processLines n [l1, l2] ! 1))) =
           [toString (Suc (fst (processLine n l1))) @ js ''. '']"
proof -
  from lineKind_Ordered(7) [OF assms] obtain m where m: "match numberedRe (trim l2) = Some m"
    by auto
  obtain n1 p1 where p1: "processLine n l1 = (n1, p1)" by (cases "processLine n l1")
  from classifyLine_Ordered [OF assms m, of n1] p1 show ?thesis
    by (simp add: processLine_def)
qed

text \<open>
  What a match of each of the four inline patterns says about the text: where the opening
  delimiter stands, and what follows it. A bold and an italic candidate never have the
  same index.
\<close>

lemma ms_Seq_mem:
  "(e, cs') \<in> set (ms (Seq r1 r2) s i cs) \<longleftrightarrow>
     (\<exists>e1 c1. (e1, c1) \<in> set (ms r1 s i cs) \<and> (e, cs') \<in> set (ms r2 s e1 c1))"
  by auto

lemma ms_Grp_mem:
  "(e, cs') \<in> set (ms (Grp g r) s i cs) \<longleftrightarrow>
     (\<exists>c. (e, c) \<in> set (ms r s i cs) \<and> cs' = (g, take (e - i) (drop i s)) # c)"
  by auto

lemma ms_Many_mem:
  "(e, cs') \<in> set (ms (Many greedy m p) s i cs) \<longleftrightarrow>
     cs' = cs \<and> (\<exists>j. e = i + j \<and> m \<le> j \<and> j \<le> length (takeWhile p (drop i s)))"
  by (auto simp: Let_def)

lemma ms_Chr_mem:
  "(e, cs') \<in> set (ms (Chr c) s i cs) \<longleftrightarrow> cs' = cs \<and> e = Suc i \<and> i < length s \<and> s ! i = c"
  by auto

lemma ms_Bol_mem: "(e, cs') \<in> set (ms Bol s i cs) \<longleftrightarrow> cs' = cs \<and> e = i \<and> i = 0"
  by auto

lemma ms_NotBehind_mem:
  "(e, cs') \<in> set (ms (NotBehind p) s i cs) \<longleftrightarrow> cs' = cs \<and> e = i \<and> \<not> (0 < i \<and> p (s ! (i - 1)))"
  by auto

lemma ms_NotAhead_mem:
  "(e, cs') \<in> set (ms (NotAhead p) s i cs) \<longleftrightarrow> cs' = cs \<and> e = i \<and> \<not> (i < length s \<and> p (s ! i))"
  by auto

lemmas ms_mem = ms_Seq_mem ms_Grp_mem ms_Many_mem ms_Chr_mem ms_Bol_mem ms_NotBehind_mem ms_NotAhead_mem

lemma match_mem:
  assumes "match r s = Some a"
  shows "\<exists>e cs. (e, cs) \<in> set (ms r s 0 []) \<and> m1 a = captured cs 1"
proof -
  from assms obtain e cs rest where "ms r s 0 [] = (e, cs) # rest" "m1 a = captured cs 1"
    by (auto simp: match_def split: list.splits)
  then have "(e, cs) \<in> set (ms r s 0 []) \<and> m1 a = captured cs 1" by simp
  then show ?thesis by blast
qed

lemma takeWhile_first:
  assumes "1 \<le> j" and "j \<le> length (takeWhile p (drop i s))"
  shows "i < length s \<and> p (s ! i)"
proof -
  from assms have ne: "takeWhile p (drop i s) \<noteq> []" by auto
  then have d: "drop i s \<noteq> []" by auto
  then have i: "i < length s" by simp
  from ne d have "p (hd (drop i s))" by (cases "drop i s") (auto split: if_splits)
  with i show ?thesis by (simp add: hd_drop_conv_nth)
qed

lemma bold_shape:
  assumes "match boldRe s = Some a"
  shows "Suc (length (m1 a)) < length s \<and> s ! length (m1 a) = star \<and> s ! Suc (length (m1 a)) = star"
proof -
  from match_mem [OF assms] obtain e cs where
    mem: "(e, cs) \<in> set (ms boldRe s 0 [])" and m1: "m1 a = captured cs 1" by blast
  from mem obtain i where "captured cs 1 = take i s" "Suc i < length s" "s ! i = star" "s ! Suc i = star"
    unfolding boldRe_def seqs_def by (auto simp: ms_mem captured_def simp del: ms.simps)
  with m1 show ?thesis by simp
qed

lemma bold2_shape:
  assumes "match boldRe2 s = Some a"
  shows "Suc (length (m1 a)) < length s \<and> s ! length (m1 a) = underscore \<and> s ! Suc (length (m1 a)) = underscore"
proof -
  from match_mem [OF assms] obtain e cs where
    mem: "(e, cs) \<in> set (ms boldRe2 s 0 [])" and m1: "m1 a = captured cs 1" by blast
  from mem obtain i where "captured cs 1 = take i s" "Suc i < length s" "s ! i = underscore" "s ! Suc i = underscore"
    unfolding boldRe2_def seqs_def by (auto simp: ms_mem captured_def simp del: ms.simps)
  with m1 show ?thesis by simp
qed

lemma italic_shape:
  assumes "match italicRe s = Some a"
  shows "Suc (length (m1 a)) < length s \<and> s ! length (m1 a) = star \<and> s ! Suc (length (m1 a)) \<noteq> star"
proof -
  from match_mem [OF assms] obtain e cs where
    mem: "(e, cs) \<in> set (ms italicRe s 0 [])" and m1: "m1 a = captured cs 1" by blast
  from mem obtain i j where "captured cs 1 = take i s" "i < length s" "s ! i = star"
      "1 \<le> j" "j \<le> length (takeWhile (\<lambda>c. c \<noteq> star) (drop (Suc i) s))"
    unfolding italicRe_def seqs_def by (auto simp: ms_mem captured_def simp del: ms.simps)
  with m1 takeWhile_first [of j "\<lambda>c. c \<noteq> star" "Suc i" s] show ?thesis by simp
qed

lemma italic2_shape:
  assumes "match italicRe2 s = Some a"
  shows "Suc (length (m1 a)) < length s \<and> s ! length (m1 a) = underscore \<and> s ! Suc (length (m1 a)) \<noteq> underscore"
proof -
  from match_mem [OF assms] obtain e cs where
    mem: "(e, cs) \<in> set (ms italicRe2 s 0 [])" and m1: "m1 a = captured cs 1" by blast
  from mem obtain i j where "captured cs 1 = take i s" "i < length s" "s ! i = underscore"
      "1 \<le> j" "j \<le> length (takeWhile (\<lambda>c. c \<noteq> underscore) (drop (Suc i) s))"
    unfolding italicRe2_def seqs_def by (auto simp: ms_mem captured_def simp del: ms.simps)
  with m1 takeWhile_first [of j "\<lambda>c. c \<noteq> underscore" "Suc i" s] show ?thesis by simp
qed

lemma mkCandidate_fields:
  assumes "Some c = map_option (mkCandidate t) x"
  shows "ctype c = t \<and> cindex c = length (m1 (cmatch c)) \<and> x = Some (cmatch c)"
  using assms by (cases x) (auto simp: mkCandidate_def)

lemma candidates_mem_cases:
  assumes "c \<in> set (candidates s)"
  shows "(ctype c = Bold \<and> cindex c = length (m1 (cmatch c)) \<and>
            (match boldRe s = Some (cmatch c) \<or> match boldRe2 s = Some (cmatch c))) \<or>
         (ctype c = Italic \<and> cindex c = length (m1 (cmatch c)) \<and>
            (match italicRe s = Some (cmatch c) \<or> match italicRe2 s = Some (cmatch c)))"
proof -
  from assms have "Some c \<in> set [map_option (mkCandidate Bold) (match boldRe s),
      map_option (mkCandidate Bold) (match boldRe2 s),
      map_option (mkCandidate Italic) (match italicRe s),
      map_option (mkCandidate Italic) (match italicRe2 s)]"
    unfolding candidates_def mkCandidates_def by (simp only: map_filter_id_mem)
  then consider "Some c = map_option (mkCandidate Bold) (match boldRe s)"
    | "Some c = map_option (mkCandidate Bold) (match boldRe2 s)"
    | "Some c = map_option (mkCandidate Italic) (match italicRe s)"
    | "Some c = map_option (mkCandidate Italic) (match italicRe2 s)"
    by auto
  then show ?thesis
  proof cases
    case 1
    from mkCandidate_fields [OF 1] show ?thesis by simp
  next
    case 2
    from mkCandidate_fields [OF 2] show ?thesis by simp
  next
    case 3
    from mkCandidate_fields [OF 3] show ?thesis by simp
  next
    case 4
    from mkCandidate_fields [OF 4] show ?thesis by simp
  qed
qed

lemma no_tie:
  assumes "b \<in> set (candidates s)" "ctype b = Bold" "c \<in> set (candidates s)" "ctype c = Italic"
  shows "cindex b \<noteq> cindex c"
proof
  assume eq: "cindex b = cindex c"
  have ne: "star \<noteq> underscore" by (simp add: star_def underscore_def)
  from candidates_mem_cases [OF assms(1)] assms(2)
  have b: "cindex b = length (m1 (cmatch b))"
    "match boldRe s = Some (cmatch b) \<or> match boldRe2 s = Some (cmatch b)" by auto
  from candidates_mem_cases [OF assms(3)] assms(4)
  have c: "cindex c = length (m1 (cmatch c))"
    "match italicRe s = Some (cmatch c) \<or> match italicRe2 s = Some (cmatch c)" by auto
  from b(2) c(2) eq b(1) c(1) ne show False
    using bold_shape [of s "cmatch b"] bold2_shape [of s "cmatch b"]
      italic_shape [of s "cmatch c"] italic2_shape [of s "cmatch c"]
    by auto
qed

lemma onUpdate_suppressed:
  assumes "isUpdatingFromProp s"
  shows "isUpdatingFromProp (onUpdate turndown html s)"
    and "emitted (onUpdate turndown html s) = emitted s"
    and "lastExternalValue (onUpdate turndown html s) = lastExternalValue s"
  using assms by (simp_all add: onUpdate_def Let_def)

lemma fold_onUpdate_suppressed:
  assumes "isUpdatingFromProp s"
  shows "isUpdatingFromProp (fold (onUpdate turndown) htmls s)"
    and "emitted (fold (onUpdate turndown) htmls s) = emitted s"
    and "lastExternalValue (fold (onUpdate turndown) htmls s) = lastExternalValue s"
  using assms by (induction htmls arbitrary: s) (simp_all add: onUpdate_suppressed)







lemma pickFirst_None: "pickFirst cs = None \<longleftrightarrow> cs = []"
  using length_sort [of cindex cs] by (cases "sort_key cindex cs") (auto simp: pickFirst_def)

section \<open>The document compiler never returns an empty array\<close>

text \<open>
  Claim C2. For every input string \<open>parseMarkdownToParagraphs\<close> returns at least one
  paragraph, and when the input is empty or consists of white space only it returns
  exactly one paragraph, whose single run has the text "No content provided", is italic
  and has the muted colour \<open>9ca3af\<close>.
\<close>

theorem parseMarkdownToParagraphs_nonempty:
  "parseMarkdownToParagraphs t \<noteq> [] \<and>
   (trim t = [] \<longrightarrow>
      parseMarkdownToParagraphs t =
        [\<lparr>children = [\<lparr>text' = js ''No content provided'', bold = None, italics = Some True,
                        color = Some (js ''9ca3af''), size' = Some 20\<rparr>],
          spacing = None, bullet_level = None, indent_left = None\<rparr>])"
proof -
  have "length (processLines 0 (split_lines t)) \<noteq> 0"
    using split_lines_nonempty [of t] by (simp only: length_processLines) simp
  then have "processLines 0 (split_lines t) \<noteq> []" by simp
  then show ?thesis
    by (simp add: parseMarkdownToParagraphs_def placeholderParagraph_def)
qed

text \<open>
  At the input of a space, a line feed and a tab the placeholder is returned; the empty
  string gives a non-empty result, and two lines of text give two paragraphs.
\<close>

theorem parseMarkdownToParagraphs_nonempty_witness:
  "trim (js '' '' @ [0x0A, 0x09]) = [] \<and>
   parseMarkdownToParagraphs (js '' '' @ [0x0A, 0x09]) =
        [\<lparr>children = [\<lparr>text' = js ''No content provided'', bold = None, italics = Some True,
                        color = Some (js ''9ca3af''), size' = Some 20\<rparr>],
          spacing = None, bullet_level = None, indent_left = None\<rparr>] \<and>
   parseMarkdownToParagraphs [] \<noteq> [] \<and>
   length (parseMarkdownToParagraphs (js ''a'' @ [0x0A] @ js ''b'')) = 2"
  using parseMarkdownToParagraphs_nonempty [of "js '' '' @ [0x0A, 0x09]"]
    parseMarkdownToParagraphs_nonempty [of "[]"]
  by (simp add: string_defs regex_defs inline_defs compiler_defs)

section \<open>Headings are tested before the list patterns\<close>

text \<open>
  The tests for the heading markers are made on the trimmed line. A line that holds
  nothing but the marker and white space starts with the marker and a space, but its
  trimmed form is the bare marker, which does not; it is compiled as a plain paragraph
  and resets the counter.
\<close>

theorem heading_marker_only_counterexample:
  "startsWith (js ''# '') (js ''# '') \<and>
   trim (js ''# '') = js ''#'' \<and>
   processLine 3 (js ''# '') =
     (0, \<lparr>children = [\<lparr>text' = js ''#'', bold = None, italics = None,
                         color = Some (js ''000000''), size' = Some 20\<rparr>],
          spacing = Some \<lparr>before = None, after = Some 80\<rparr>,
          bullet_level = None, indent_left = None\<rparr>) \<and>
   parseMarkdownToParagraphs (js ''# '') =
     [\<lparr>children = [\<lparr>text' = js ''#'', bold = None, italics = None,
                     color = Some (js ''000000''), size' = Some 20\<rparr>],
       spacing = Some \<lparr>before = None, after = Some 80\<rparr>,
       bullet_level = None, indent_left = None\<rparr>] \<and>
   startsWith (js ''##  '') (js ''## '') \<and>
   paragraphTexts (parseMarkdownToParagraphs (js ''##  '')) = [[js ''##'']] \<and>
   map spacing (parseMarkdownToParagraphs (js ''##  '')) = [Some \<lparr>before = None, after = Some 80\<rparr>]"
  by (simp add: string_defs regex_defs inline_defs compiler_defs paragraphTexts_def)

text \<open>
  Claim C5, as amended. For every line whose trimmed form starts with "# " the compiler
  produces the heading of level 1: one bold run of size 28 holding the rest of the
  trimmed line, spacing 250 before and 120 after, and the counter unchanged, whatever
  the rest of the line is, so also when it matches the ordered-item pattern. Likewise
  "## " gives the heading of level 2 (size 24, spacing 200 and 100) and "### " the
  heading of level 3 (size 22, spacing 150 and 80). The line "# 1. Title" compiles to
  the heading of level 1 with the text "1. Title".
\<close>

theorem heading_precedence:
  "(startsWith (trim line) (js ''# '') \<longrightarrow>
      lineKind (trim line) = Heading1 \<and>
      processLine n line =
        (n, \<lparr>children = [\<lparr>text' = drop 2 (trim line), bold = Some True, italics = None,
                            color = Some (js ''000000''), size' = Some 28\<rparr>],
             spacing = Some \<lparr>before = Some 250, after = Some 120\<rparr>,
             bullet_level = None, indent_left = None\<rparr>)) \<and>
   (startsWith (trim line) (js ''## '') \<longrightarrow>
      lineKind (trim line) = Heading2 \<and>
      processLine n line =
        (n, \<lparr>children = [\<lparr>text' = drop 3 (trim line), bold = Some True, italics = None,
                            color = Some (js ''000000''), size' = Some 24\<rparr>],
             spacing = Some \<lparr>before = Some 200, after = Some 100\<rparr>,
             bullet_level = None, indent_left = None\<rparr>)) \<and>
   (startsWith (trim line) (js ''### '') \<longrightarrow>
      lineKind (trim line) = Heading3 \<and>
      processLine n line =
        (n, \<lparr>children = [\<lparr>text' = drop 4 (trim line), bold = Some True, italics = None,
                            color = Some (js ''000000''), size' = Some 22\<rparr>],
             spacing = Some \<lparr>before = Some 150, after = Some 80\<rparr>,
             bullet_level = None, indent_left = None\<rparr>)) \<and>
   parseMarkdownToParagraphs (js ''# 1. Title'') =
     [\<lparr>children = [\<lparr>text' = js ''1. Title'', bold = Some True, italics = None,
                     color = Some (js ''000000''), size' = Some 28\<rparr>],
       spacing = Some \<lparr>before = Some 250, after = Some 120\<rparr>,
       bullet_level = None, indent_left = None\<rparr>]"
proof (intro conjI impI)
  assume h: "startsWith (trim line) (js ''# '')"
  from startsWith_h1 [OF h] h show "lineKind (trim line) = Heading1"
    by (simp add: lineKind_def)
  from startsWith_h1 [OF h] h show "processLine n line =
        (n, \<lparr>children = [\<lparr>text' = drop 2 (trim line), bold = Some True, italics = None,
                            color = Some (js ''000000''), size' = Some 28\<rparr>],
             spacing = Some \<lparr>before = Some 250, after = Some 120\<rparr>,
             bullet_level = None, indent_left = None\<rparr>)"
    by (simp add: processLine_def classifyLine_def)
next
  assume h: "startsWith (trim line) (js ''## '')"
  from startsWith_h2 [OF h] h show "lineKind (trim line) = Heading2"
    by (simp add: lineKind_def)
  from startsWith_h2 [OF h] h show "processLine n line =
        (n, \<lparr>children = [\<lparr>text' = drop 3 (trim line), bold = Some True, italics = None,
                            color = Some (js ''000000''), size' = Some 24\<rparr>],
             spacing = Some \<lparr>before = Some 200, after = Some 100\<rparr>,
             bullet_level = None, indent_left = None\<rparr>)"
    by (simp add: processLine_def classifyLine_def)
next
  assume h: "startsWith (trim line) (js ''### '')"
  from startsWith_h3 [OF h] h show "lineKind (trim line) = Heading3"
    by (simp add: lineKind_def)
  from startsWith_h3 [OF h] h show "processLine n line =
        (n, \<lparr>children = [\<lparr>text' = drop 4 (trim line), bold = Some True, italics = None,
                            color = Some (js ''000000''), size' = Some 22\<rparr>],
             spacing = Some \<lparr>before = Some 150, after = Some 80\<rparr>,
             bullet_level = None, indent_left = None\<rparr>)"
    by (simp add: processLine_def classifyLine_def)
next
  show "parseMarkdownToParagraphs (js ''# 1. Title'') =
     [\<lparr>children = [\<lparr>text' = js ''1. Title'', bold = Some True, italics = None,
                     color = Some (js ''000000''), size' = Some 28\<rparr>],
       spacing = Some \<lparr>before = Some 250, after = Some 120\<rparr>,
       bullet_level = None, indent_left = None\<rparr>]"
    by (simp add: string_defs regex_defs inline_defs compiler_defs)
qed

text \<open>
  The remainder "1. Title" matches the ordered-item pattern and would be an ordered item
  on its own; behind each of the three markers, with the counter at 4, the line is the
  heading of that level and the counter stays 4.
\<close>

theorem heading_precedence_witness:
  "startsWith (trim (js '' # 1. Title '')) (js ''# '') \<and>
   match numberedRe (js ''1. Title'') = Some \<lparr>m0 = js ''1. Title'', m1 = js ''1'', m2 = js ''Title''\<rparr> \<and>
   lineKind (js ''1. Title'') = Ordered \<and>
   lineKind (trim (js '' # 1. Title '')) = Heading1 \<and>
   processLine 4 (js '' # 1. Title '') =
     (4, \<lparr>children = [\<lparr>text' = js ''1. Title'', bold = Some True, italics = None,
                         color = Some (js ''000000''), size' = Some 28\<rparr>],
          spacing = Some \<lparr>before = Some 250, after = Some 120\<rparr>,
          bullet_level = None, indent_left = None\<rparr>) \<and>
   startsWith (trim (js ''## 2. Sub'')) (js ''## '') \<and>
   processLine 4 (js ''## 2. Sub'') =
     (4, \<lparr>children = [\<lparr>text' = js ''2. Sub'', bold = Some True, italics = None,
                         color = Some (js ''000000''), size' = Some 24\<rparr>],
          spacing = Some \<lparr>before = Some 200, after = Some 100\<rparr>,
          bullet_level = None, indent_left = None\<rparr>) \<and>
   startsWith (trim (js ''### 3. Sub'')) (js ''### '') \<and>
   processLine 4 (js ''### 3. Sub'') =
     (4, \<lparr>children = [\<lparr>text' = js ''3. Sub'', bold = Some True, italics = None,
                         color = Some (js ''000000''), size' = Some 22\<rparr>],
          spacing = Some \<lparr>before = Some 150, after = Some 80\<rparr>,
          bullet_level = None, indent_left = None\<rparr>)"
  using heading_precedence [of "js '' # 1. Title ''" 4] heading_precedence [of "js ''## 2. Sub''" 4]
    heading_precedence [of "js ''### 3. Sub''" 4]
  by (simp add: string_defs regex_defs inline_defs compiler_defs)

section \<open>Lines are trimmed before they are classified\<close>

text \<open>
  Claim C10. A line and its trimmed form give the same paragraph and the same counter;
  the kind of block is read from the trimmed line, which does not start or end with
  white space; and a whole list of lines compiles as the list of the trimmed lines does.
\<close>

theorem trim_before_classification:
  "processLine n line = processLine n (trim line) \<and>
   lineKind (trim (trim line)) = lineKind (trim line) \<and>
   (trim line \<noteq> [] \<longrightarrow> \<not> isSpace (hd (trim line)) \<and> \<not> isSpace (last (trim line))) \<and>
   processLines n ls = processLines n (map trim ls)"
  using trim_ends [of line] processLines_trim [of n ls]
  by (simp add: processLine_def trim_idem)

text \<open>
  The indented line "  - x  " is a bullet whose only run is "x".
\<close>

theorem trim_before_classification_witness:
  "trim (js ''  - x  '') = js ''- x'' \<and>
   lineKind (trim (js ''  - x  '')) = Bullet \<and>
   processLine 3 (js ''  - x  '') = processLine 3 (js ''- x'') \<and>
   processLine 3 (js ''  - x  '') =
     (0, \<lparr>children = [\<lparr>text' = js ''x'', bold = None, italics = None,
                         color = Some (js ''000000''), size' = Some 20\<rparr>],
          spacing = Some \<lparr>before = None, after = Some 60\<rparr>,
          bullet_level = Some 0, indent_left = None\<rparr>)"
  using trim_before_classification [of 3 "js ''  - x  ''" "[]"]
  by (simp add: string_defs regex_defs inline_defs compiler_defs)

section \<open>The numbering of ordered items\<close>

text \<open>
  The counter is not reset by every block of another kind: after a blank line, a heading
  or a lettered sub-item the next ordered item continues the numbering.
\<close>

theorem ordered_numbering_counterexample:
  "lineKind (trim []) = Blank \<and>
   paragraphTexts (parseMarkdownToParagraphs (js ''1. A'' @ [0x0A, 0x0A] @ js ''1. B'')) =
     [[js ''1. '', js ''A''], [], [js ''2. '', js ''B'']] \<and>
   lineKind (trim (js ''# H'')) = Heading1 \<and>
   paragraphTexts (parseMarkdownToParagraphs (js ''1. A'' @ [0x0A] @ js ''# H'' @ [0x0A] @ js ''1. B'')) =
     [[js ''1. '', js ''A''], [js ''H''], [js ''2. '', js ''B'']] \<and>
   lineKind (trim (js ''a) s'')) = LetteredSub \<and>
   paragraphTexts (parseMarkdownToParagraphs (js ''1. A'' @ [0x0A] @ js ''a) s'' @ [0x0A] @ js ''1. B'')) =
     [[js ''1. '', js ''A''], [js ''a. '', js ''s''], [js ''2. '', js ''B'']]"
  by (simp add: string_defs regex_defs inline_defs compiler_defs paragraphTexts_def)

text \<open>
  Claim C1, as amended. An ordered line increments the counter and is rendered with the
  new value of the counter as its ordinal: the paragraph is built from the counter and
  from the text after the marker, and the digits of the line (the first group of the
  match) are not used. A bullet line and a plain paragraph line set the counter to 0, so
  that the next ordered line is rendered with ordinal 1; a blank line and a lettered
  sub-item line leave the counter as it is, so that the next ordered line continues the
  numbering. Compiling "1. A", "- x", "1. B" renders both ordered items with ordinal 1.
\<close>

theorem ordered_numbering:
  "(lineKind (trim line) = Ordered \<and> match numberedRe (trim line) = Some m \<longrightarrow>
      processLine n line =
        (Suc n,
         \<lparr>children = \<lparr>text' = toString (Suc n) @ js ''. '', bold = Some True, italics = None,
                      color = Some (js ''000000''), size' = None\<rparr> # parseInlineMarkdown (m2 m),
          spacing = Some \<lparr>before = None, after = Some 60\<rparr>,
          bullet_level = None, indent_left = Some 25\<rparr>)) \<and>
   (lineKind (trim line) = Ordered \<longrightarrow> (\<exists>m. match numberedRe (trim line) = Some m)) \<and>
   (lineKind (trim line) = Bullet \<or> lineKind (trim line) = PlainParagraph \<longrightarrow>
      fst (processLine n line) = 0) \<and>
   (lineKind (trim line) = Blank \<or> lineKind (trim line) = LetteredSub \<longrightarrow>
      fst (processLine n line) = n) \<and>
   ((lineKind (trim prev) = Bullet \<or> lineKind (trim prev) = PlainParagraph) \<and>
    lineKind (trim nxt) = Ordered \<longrightarrow>
      map text' (take 1 (children (processLines n [prev, nxt] ! 1))) = [js ''1. '']) \<and>
   ((lineKind (trim prev) = Blank \<or> lineKind (trim prev) = LetteredSub) \<and>
    lineKind (trim nxt) = Ordered \<longrightarrow>
      map text' (take 1 (children (processLines n [prev, nxt] ! 1))) =
        [toString (Suc n) @ js ''. '']) \<and>
   paragraphTexts (parseMarkdownToParagraphs (js ''1. A'' @ [0x0A] @ js ''- x'' @ [0x0A] @ js ''1. B'')) =
     [[js ''1. '', js ''A''], [js ''x''], [js ''1. '', js ''B'']]"
proof (intro conjI)
  show "lineKind (trim line) = Ordered \<and> match numberedRe (trim line) = Some m \<longrightarrow>
      processLine n line =
        (Suc n,
         \<lparr>children = \<lparr>text' = toString (Suc n) @ js ''. '', bold = Some True, italics = None,
                      color = Some (js ''000000''), size' = None\<rparr> # parseInlineMarkdown (m2 m),
          spacing = Some \<lparr>before = None, after = Some 60\<rparr>,
          bullet_level = None, indent_left = Some 25\<rparr>)"
    by (simp add: processLine_def classifyLine_Ordered)
  show "lineKind (trim line) = Ordered \<longrightarrow> (\<exists>m. match numberedRe (trim line) = Some m)"
    using lineKind_Ordered(7) [of "trim line"] by auto
  show "lineKind (trim line) = Bullet \<or> lineKind (trim line) = PlainParagraph \<longrightarrow>
      fst (processLine n line) = 0"
    by (auto simp: processLine_def classifyLine_counter)
  show "lineKind (trim line) = Blank \<or> lineKind (trim line) = LetteredSub \<longrightarrow>
      fst (processLine n line) = n"
    by (auto simp: processLine_def classifyLine_counter)
  have one: "js ''1. '' = toString (Suc 0) @ js ''. ''" by (simp add: toString.simps js_def)
  show "(lineKind (trim prev) = Bullet \<or> lineKind (trim prev) = PlainParagraph) \<and>
    lineKind (trim nxt) = Ordered \<longrightarrow>
      map text' (take 1 (children (processLines n [prev, nxt] ! 1))) = [js ''1. '']"
    unfolding one
    by (auto simp only: processLines_two_ordered processLine_def classifyLine_counter
          block_kind.case)
  show "(lineKind (trim prev) = Blank \<or> lineKind (trim prev) = LetteredSub) \<and>
    lineKind (trim nxt) = Ordered \<longrightarrow>
      map text' (take 1 (children (processLines n [prev, nxt] ! 1))) =
        [toString (Suc n) @ js ''. '']"
    by (auto simp only: processLines_two_ordered processLine_def classifyLine_counter
          block_kind.case)
  show "paragraphTexts (parseMarkdownToParagraphs (js ''1. A'' @ [0x0A] @ js ''- x'' @ [0x0A] @ js ''1. B'')) =
     [[js ''1. '', js ''A''], [js ''x''], [js ''1. '', js ''B'']]"
    by (simp add: string_defs regex_defs inline_defs compiler_defs paragraphTexts_def)
qed

text \<open>
  The line "7. A" with the counter at 0 is rendered as "1. " followed by "A"; a bullet,
  a paragraph, a blank line and a lettered sub-item show what each does to a counter of
  5; and in "7. A", "3. B", "text", "9. C" the ordinals are 1, 2 and, after the
  paragraph, 1 again.
\<close>

theorem ordered_numbering_witness:
  "lineKind (trim (js ''7. A'')) = Ordered \<and>
   match numberedRe (trim (js ''7. A'')) = Some \<lparr>m0 = js ''7. A'', m1 = js ''7'', m2 = js ''A''\<rparr> \<and>
   processLine 0 (js ''7. A'') =
        (1,
         \<lparr>children = [\<lparr>text' = js ''1. '', bold = Some True, italics = None,
                      color = Some (js ''000000''), size' = None\<rparr>,
                      \<lparr>text' = js ''A'', bold = None, italics = None,
                      color = Some (js ''000000''), size' = Some 20\<rparr>],
          spacing = Some \<lparr>before = None, after = Some 60\<rparr>,
          bullet_level = None, indent_left = Some 25\<rparr>) \<and>
   lineKind (trim (js ''- x'')) = Bullet \<and> fst (processLine 5 (js ''- x'')) = 0 \<and>
   lineKind (trim (js ''plain'')) = PlainParagraph \<and> fst (processLine 5 (js ''plain'')) = 0 \<and>
   lineKind (trim []) = Blank \<and> fst (processLine 5 []) = 5 \<and>
   lineKind (trim (js ''a) s'')) = LetteredSub \<and> fst (processLine 5 (js ''a) s'')) = 5 \<and>
   lineKind (trim (js ''text'')) = PlainParagraph \<and> lineKind (trim (js ''9. C'')) = Ordered \<and>
   map text' (take 1 (children (processLines 0 [js ''text'', js ''9. C''] ! 1))) = [js ''1. ''] \<and>
   paragraphTexts (parseMarkdownToParagraphs (js ''7. A'' @ [0x0A] @ js ''3. B'' @ [0x0A] @ js ''text'' @ [0x0A] @ js ''9. C'')) =
     [[js ''1. '', js ''A''], [js ''2. '', js ''B''], [js ''text''], [js ''1. '', js ''C'']]"
  using ordered_numbering [where line = "js ''7. A''"
      and m = "\<lparr>m0 = js ''7. A'', m1 = js ''7'', m2 = js ''A''\<rparr>" and n = 0
      and prev = "js ''text''" and nxt = "js ''9. C''"]
  by (simp add: string_defs regex_defs inline_defs compiler_defs paragraphTexts_def)

section \<open>The inline parser on the empty line\<close>

text \<open>
  The inline parser does not return the empty sequence on the empty line.
\<close>

theorem parseInlineMarkdown_empty_counterexample: "parseInlineMarkdown [] \<noteq> []"
  by (simp add: parseInlineMarkdown_def parseInlineLoop.simps)

text \<open>
  Claim C6, as amended. On the empty line the loop of the inline parser pushes no run,
  and the final \<open>runs.length > 0 ? runs : [...]\<close> of \<open>parseInlineMarkdown\<close> then returns
  one plain run whose text is the empty string.
\<close>

theorem parseInlineMarkdown_empty:
  "parseInlineLoop [] = [] \<and>
   parseInlineMarkdown [] =
     [\<lparr>text' = [], bold = None, italics = None, color = Some (js ''000000''), size' = Some 20\<rparr>]"
  by (simp add: parseInlineMarkdown_def parseInlineLoop.simps plainRun_def)

theorem parseInlineMarkdown_empty_witness:
  "length (parseInlineMarkdown []) = 1 \<and> text' (hd (parseInlineMarkdown [])) = []"
  using parseInlineMarkdown_empty by simp

section \<open>Bold before italic\<close>

text \<open>
  Claim C4. The inline parser builds the array of candidates in the order bold
  (asterisks), bold (underscores), italic (asterisk), italic (underscore) and selects
  from it the candidate with the least index, and among several with the least index the
  one that comes first in the array; there is no selection only when the array is empty.
  So whenever a bold candidate starts at the earliest offset, the selected candidate is
  bold and starts at that offset, whether or not an italic candidate starts there too.
  This is stated for any four optional matches, and \<open>firstMatch\<close> is this selection
  applied to the matches of the four patterns on the remaining text. The line
  "**bold** and *italic*" gives the three runs bold "bold", plain " and ", italic
  "italic".
\<close>

theorem bold_before_italic:
  "(\<forall>c. pickFirst (mkCandidates boldStar boldUnderscore italicStar italicUnderscore) = Some c \<longrightarrow>
        c \<in> set (mkCandidates boldStar boldUnderscore italicStar italicUnderscore) \<and>
        (\<forall>x\<in>set (mkCandidates boldStar boldUnderscore italicStar italicUnderscore). cindex c \<le> cindex x) \<and>
        c = hd (filter (\<lambda>y. cindex y = cindex c)
                  (mkCandidates boldStar boldUnderscore italicStar italicUnderscore)) \<and>
        (\<forall>b\<in>set (mkCandidates boldStar boldUnderscore italicStar italicUnderscore).
            ctype b = Bold \<and> cindex b \<le> cindex c \<longrightarrow> ctype c = Bold \<and> cindex c = cindex b)) \<and>
   (pickFirst (mkCandidates boldStar boldUnderscore italicStar italicUnderscore) = None \<longleftrightarrow>
      mkCandidates boldStar boldUnderscore italicStar italicUnderscore = []) \<and>
   firstMatch remaining =
     pickFirst (mkCandidates (match boldRe remaining) (match boldRe2 remaining)
                             (match italicRe remaining) (match italicRe2 remaining)) \<and>
   parseInlineMarkdown (js ''**bold** and *italic*'') =
     [\<lparr>text' = js ''bold'', bold = Some True, italics = None, color = Some (js ''000000''), size' = Some 20\<rparr>,
      \<lparr>text' = js '' and '', bold = None, italics = None, color = Some (js ''000000''), size' = Some 20\<rparr>,
      \<lparr>text' = js ''italic'', bold = None, italics = Some True, color = Some (js ''000000''), size' = Some 20\<rparr>]"
proof (intro conjI allI impI ballI)
  let ?cs = "mkCandidates boldStar boldUnderscore italicStar italicUnderscore"
  fix c
  assume pick: "pickFirst ?cs = Some c"
  from pickFirst_mem [OF pick] show "c \<in> set ?cs" .
  from pickFirst_stable [OF pick] show "c = hd (filter (\<lambda>y. cindex y = cindex c) ?cs)" .
  {
    fix x assume "x \<in> set ?cs"
    with pickFirst_least [OF pick] show "cindex c \<le> cindex x" by simp
  }
  {
    fix b assume b: "b \<in> set ?cs" and h: "ctype b = Bold \<and> cindex b \<le> cindex c"
    from pickFirst_least [OF pick] b have le: "cindex c \<le> cindex b" by simp
    with h have eq: "cindex c = cindex b" by simp
    with pickFirst_least [OF pick] have "\<forall>x\<in>set ?cs. cindex b \<le> cindex x" by simp
    from pickFirst_bold [OF pick b _ this] h show "ctype c = Bold" by simp
    from eq show "cindex c = cindex b" .
  }
next
  show "(pickFirst (mkCandidates boldStar boldUnderscore italicStar italicUnderscore) = None) =
      (mkCandidates boldStar boldUnderscore italicStar italicUnderscore = [])"
    by (rule pickFirst_None)
next
  show "firstMatch remaining =
     pickFirst (mkCandidates (match boldRe remaining) (match boldRe2 remaining)
                             (match italicRe remaining) (match italicRe2 remaining))"
    by (simp add: firstMatch_def candidates_def)
next
  show "parseInlineMarkdown (js ''**bold** and *italic*'') =
     [\<lparr>text' = js ''bold'', bold = Some True, italics = None, color = Some (js ''000000''), size' = Some 20\<rparr>,
      \<lparr>text' = js '' and '', bold = None, italics = None, color = Some (js ''000000''), size' = Some 20\<rparr>,
      \<lparr>text' = js ''italic'', bold = None, italics = Some True, color = Some (js ''000000''), size' = Some 20\<rparr>]"
    by (simp add: string_defs regex_defs inline_defs)
qed

text \<open>
  In "*i* **b**" the italic span starts first and is selected, although the bold
  candidate comes first in the array; in "__a__ **b**" the second bold candidate starts
  first and is selected. The four patterns never give two candidates the same index, so
  the last two selections are made on matches written by hand: of two italic candidates
  at index 2 the first in the array is selected, and of a bold and an italic candidate
  at index 2 the bold one.
\<close>

theorem bold_before_italic_witness:
  "firstMatch (js ''**bold** and *italic*'') =
     Some \<lparr>ctype = Bold, cmatch = \<lparr>m0 = js ''**bold**'', m1 = [], m2 = js ''bold''\<rparr>, cindex = 0\<rparr> \<and>
   candidates (js ''*i* **b**'') =
     [\<lparr>ctype = Bold, cmatch = \<lparr>m0 = js ''*i* **b**'', m1 = js ''*i* '', m2 = js ''b''\<rparr>, cindex = 4\<rparr>,
      \<lparr>ctype = Italic, cmatch = \<lparr>m0 = js ''*i*'', m1 = [], m2 = js ''i''\<rparr>, cindex = 0\<rparr>] \<and>
   firstMatch (js ''*i* **b**'') =
     Some \<lparr>ctype = Italic, cmatch = \<lparr>m0 = js ''*i*'', m1 = [], m2 = js ''i''\<rparr>, cindex = 0\<rparr> \<and>
   map text' (parseInlineMarkdown (js ''*i* **b**'')) = [js ''i'', js '' '', js ''b''] \<and>
   candidates (js ''__a__ **b**'') =
     [\<lparr>ctype = Bold, cmatch = \<lparr>m0 = js ''__a__ **b**'', m1 = js ''__a__ '', m2 = js ''b''\<rparr>, cindex = 6\<rparr>,
      \<lparr>ctype = Bold, cmatch = \<lparr>m0 = js ''__a__'', m1 = [], m2 = js ''a''\<rparr>, cindex = 0\<rparr>] \<and>
   firstMatch (js ''__a__ **b**'') =
     Some \<lparr>ctype = Bold, cmatch = \<lparr>m0 = js ''__a__'', m1 = [], m2 = js ''a''\<rparr>, cindex = 0\<rparr> \<and>
   pickFirst (mkCandidates None None
                (Some \<lparr>m0 = js ''x *i*'', m1 = js ''x '', m2 = js ''i''\<rparr>)
                (Some \<lparr>m0 = js ''x _j_'', m1 = js ''x '', m2 = js ''j''\<rparr>)) =
     Some \<lparr>ctype = Italic, cmatch = \<lparr>m0 = js ''x *i*'', m1 = js ''x '', m2 = js ''i''\<rparr>, cindex = 2\<rparr> \<and>
   pickFirst (mkCandidates (Some \<lparr>m0 = js ''x **b**'', m1 = js ''x '', m2 = js ''b''\<rparr>) None
                (Some \<lparr>m0 = js ''x *i*'', m1 = js ''x '', m2 = js ''i''\<rparr>) None) =
     Some \<lparr>ctype = Bold, cmatch = \<lparr>m0 = js ''x **b**'', m1 = js ''x '', m2 = js ''b''\<rparr>, cindex = 2\<rparr>"
  using bold_before_italic [where remaining = "js ''*i* **b**''"
      and boldStar = "Some \<lparr>m0 = js ''x **b**'', m1 = js ''x '', m2 = js ''b''\<rparr>"
      and boldUnderscore = None
      and italicStar = "Some \<lparr>m0 = js ''x *i*'', m1 = js ''x '', m2 = js ''i''\<rparr>"
      and italicUnderscore = None]
  by (simp add: string_defs regex_defs inline_defs)

section \<open>The Attachments box\<close>

text \<open>
  Claim C7. For a non-empty attachment list there is one paragraph per attachment, in
  order, and the paragraph of the attachment at position \<open>i\<close> (counted from 0) reads
  \<open>i + 1\<close>, a full stop and a space, then the attachment's \<open>nameOrLink\<close> or, when that
  is empty, "Attachment " and \<open>i + 1\<close>, then, only when the description is not empty, a
  space, an em dash, a space and the description. For the empty list there is the single
  paragraph "No attachments", italic and in the muted colour.
\<close>

theorem attachment_lines:
  "(attachments \<noteq> [] \<longrightarrow>
      length (attachmentParagraphs attachments) = length attachments \<and>
      (\<forall>i < length attachments.
         lineText (attachmentParagraphs attachments ! i) =
           toString (i + 1) @ js ''. '' @
           (if nameOrLink (attachments ! i) \<noteq> [] then nameOrLink (attachments ! i)
            else js ''Attachment '' @ toString (i + 1)) @
           (if description (attachments ! i) \<noteq> []
            then [0x20, 0x2014, 0x20] @ description (attachments ! i) else []))) \<and>
   attachmentParagraphs [] =
     [\<lparr>children = [\<lparr>text' = js ''No attachments'', bold = None, italics = Some True,
                     color = Some (js ''9ca3af''), size' = Some 20\<rparr>],
       spacing = None, bullet_level = None, indent_left = None\<rparr>]"
proof (intro conjI impI allI)
  assume "attachments \<noteq> []"
  then show "length (attachmentParagraphs attachments) = length attachments"
    by (simp add: attachmentParagraphs_def)
next
  fix i
  assume "i < length attachments"
  then show "lineText (attachmentParagraphs attachments ! i) =
           toString (i + 1) @ js ''. '' @
           (if nameOrLink (attachments ! i) \<noteq> [] then nameOrLink (attachments ! i)
            else js ''Attachment '' @ toString (i + 1)) @
           (if description (attachments ! i) \<noteq> []
            then [0x20, 0x2014, 0x20] @ description (attachments ! i) else [])"
    by (simp only: attachmentParagraphs_nth lineText_attachmentParagraph)
next
  show "attachmentParagraphs [] =
     [\<lparr>children = [\<lparr>text' = js ''No attachments'', bold = None, italics = Some True,
                     color = Some (js ''9ca3af''), size' = Some 20\<rparr>],
       spacing = None, bullet_level = None, indent_left = None\<rparr>]"
    by (simp add: attachmentParagraphs_def placeholderParagraph_def)
qed

text \<open>
  An attachment without a name and with the description "log", followed by the
  attachment "Screenshot" without a description.
\<close>

theorem attachment_lines_witness:
  "map lineText (attachmentParagraphs
      [\<lparr>id' = js ''a1'', nameOrLink = [], description = js ''log''\<rparr>,
       \<lparr>id' = js ''a2'', nameOrLink = js ''Screenshot'', description = []\<rparr>]) =
     [js ''1. Attachment 1 '' @ [0x2014] @ js '' log'', js ''2. Screenshot'']"
  using attachment_lines [of "[\<lparr>id' = js ''a1'', nameOrLink = [], description = js ''log''\<rparr>,
       \<lparr>id' = js ''a2'', nameOrLink = js ''Screenshot'', description = []\<rparr>]"]
  by (simp add: report_defs string_defs)

section \<open>The first line of the Impact box\<close>

text \<open>
  Claim C8. The list of impacted parties is the categories joined by ", ", where the
  category "Others" is replaced by "Others (" followed by the free text and ")" when the
  free text is not empty, and left as it is when the free text is empty. For a selection
  of categories (a non-empty list, other than the list of the one empty string, whose
  joined text would be empty) the first paragraph of the box is the bold run
  "Impacted Parties: " followed by that list in black, not italic. When no category is
  selected the second run is "None selected", italic and in the muted colour.
\<close>

theorem impact_line:
  "(spec = [] \<longrightarrow> impactList cats spec = join (js '', '') cats) \<and>
   (spec \<noteq> [] \<longrightarrow>
      impactList cats spec =
        join (js '', '') (map (\<lambda>c. if c = js ''Others'' then js ''Others ('' @ spec @ js '')'' else c) cats)) \<and>
   (cats \<noteq> [] \<and> cats \<noteq> [[]] \<longrightarrow>
      impactParagraph cats spec =
        \<lparr>children =
           [\<lparr>text' = js ''Impacted Parties: '', bold = Some True, italics = None,
             color = Some (js ''000000''), size' = Some 20\<rparr>,
            \<lparr>text' = impactList cats spec, bold = None, italics = Some False,
             color = Some (js ''000000''), size' = Some 20\<rparr>],
         spacing = Some \<lparr>before = None, after = Some 120\<rparr>,
         bullet_level = None, indent_left = None\<rparr> \<and>
      lineText (impactParagraph cats spec) = js ''Impacted Parties: '' @ impactList cats spec) \<and>
   impactParagraph [] spec =
        \<lparr>children =
           [\<lparr>text' = js ''Impacted Parties: '', bold = Some True, italics = None,
             color = Some (js ''000000''), size' = Some 20\<rparr>,
            \<lparr>text' = js ''None selected'', bold = None, italics = Some True,
             color = Some (js ''9ca3af''), size' = Some 20\<rparr>],
         spacing = Some \<lparr>before = None, after = Some 120\<rparr>,
         bullet_level = None, indent_left = None\<rparr> \<and>
   lineText (impactParagraph [] spec) = js ''Impacted Parties: None selected''"
proof (intro conjI impI)
  show "impactList cats spec = join (js '', '') cats" if "spec = []"
    using that by (simp add: impactList_def)
  show "impactList cats spec =
        join (js '', '') (map (\<lambda>c. if c = js ''Others'' then js ''Others ('' @ spec @ js '')'' else c) cats)"
    if "spec \<noteq> []"
    using that by (simp add: impactList_def)
  assume "cats \<noteq> [] \<and> cats \<noteq> [[]]"
  then have ne: "impactList cats spec \<noteq> []" by (simp add: impactList_empty_iff)
  then show "impactParagraph cats spec =
        \<lparr>children =
           [\<lparr>text' = js ''Impacted Parties: '', bold = Some True, italics = None,
             color = Some (js ''000000''), size' = Some 20\<rparr>,
            \<lparr>text' = impactList cats spec, bold = None, italics = Some False,
             color = Some (js ''000000''), size' = Some 20\<rparr>],
         spacing = Some \<lparr>before = None, after = Some 120\<rparr>,
         bullet_level = None, indent_left = None\<rparr>"
    by (simp add: impactParagraph_def Let_def)
  from ne show "lineText (impactParagraph cats spec) = js ''Impacted Parties: '' @ impactList cats spec"
    by (simp add: impactParagraph_def Let_def lineText_def)
next
  have e: "impactList [] spec = []" by (simp add: impactList_def)
  show "impactParagraph [] spec =
        \<lparr>children =
           [\<lparr>text' = js ''Impacted Parties: '', bold = Some True, italics = None,
             color = Some (js ''000000''), size' = Some 20\<rparr>,
            \<lparr>text' = js ''None selected'', bold = None, italics = Some True,
             color = Some (js ''9ca3af''), size' = Some 20\<rparr>],
         spacing = Some \<lparr>before = None, after = Some 120\<rparr>,
         bullet_level = None, indent_left = None\<rparr>"
    by (simp add: impactParagraph_def Let_def e)
  show "lineText (impactParagraph [] spec) = js ''Impacted Parties: None selected''"
    by (simp add: impactParagraph_def Let_def e lineText_def js_def)
qed

text \<open>
  "Others" with the free text "Vendor", "Others" without free text, and no category.
\<close>

theorem impact_line_witness:
  "lineText (impactParagraph [js ''Others''] (js ''Vendor'')) = js ''Impacted Parties: Others (Vendor)'' \<and>
   lineText (impactParagraph [js ''Client'', js ''Others''] []) = js ''Impacted Parties: Client, Others'' \<and>
   lineText (impactParagraph [js ''Client'', js ''Others'', js ''Peers''] (js ''Vendor'')) =
     js ''Impacted Parties: Client, Others (Vendor), Peers'' \<and>
   lineText (impactParagraph [] (js ''Vendor'')) = js ''Impacted Parties: None selected'' \<and>
   map italics (children (impactParagraph [] (js ''Vendor''))) = [None, Some True] \<and>
   map color (children (impactParagraph [] (js ''Vendor''))) = [Some (js ''000000''), Some (js ''9ca3af'')]"
  using impact_line [of "js ''Vendor''" "[js ''Others'']"] impact_line [of "[]" "[js ''Client'', js ''Others'']"]
  by (simp add: report_defs string_defs)

section \<open>A local edit inside the suppression window is dropped\<close>

text \<open>
  Claim C3. When the editor exists and the \<open>value\<close> prop differs from
  \<open>lastExternalValue\<close>, the effect opens the suppression window without calling
  \<open>onChange\<close>; a local edit that arrives before the scheduled callback has closed the
  window calls \<open>onChange\<close> with nothing, and \<open>lastExternalValue\<close> is afterwards the
  value that was supplied from outside. The same holds of any number of local edits
  that arrive before the window is closed.
\<close>

theorem suppressed_edit_dropped:
  assumes "editor s \<noteq> None" and "v \<noteq> lastExternalValue s"
  shows "isUpdatingFromProp (externalValueChange makeHtml v s) \<and>
         emitted (externalValueChange makeHtml v s) = emitted s \<and>
         emitted (onUpdate turndown html (externalValueChange makeHtml v s)) = emitted s \<and>
         lastExternalValue (onUpdate turndown html (externalValueChange makeHtml v s)) = v \<and>
         emitted (fold (onUpdate turndown) htmls (externalValueChange makeHtml v s)) = emitted s \<and>
         lastExternalValue (fold (onUpdate turndown) htmls (externalValueChange makeHtml v s)) = v"
proof -
  let ?s1 = "externalValueChange makeHtml v s"
  from assms have s1: "isUpdatingFromProp ?s1" "emitted ?s1 = emitted s" "lastExternalValue ?s1 = v"
    by (simp_all add: externalValueChange_def)
  from s1(1) have one: "emitted (onUpdate turndown html ?s1) = emitted ?s1"
      "lastExternalValue (onUpdate turndown html ?s1) = lastExternalValue ?s1"
    by (simp_all add: onUpdate_suppressed)
  from s1(1) have many: "emitted (fold (onUpdate turndown) htmls ?s1) = emitted ?s1"
      "lastExternalValue (fold (onUpdate turndown) htmls ?s1) = lastExternalValue ?s1"
    by (simp_all add: fold_onUpdate_suppressed)
  from s1 one many show ?thesis by simp
qed

text \<open>
  From a state with the value "old", the value "new" arrives and the user types: nothing
  is emitted. Had the scheduled callback run before the edit, the edit would have been
  emitted.
\<close>

theorem suppressed_edit_dropped_witness:
  "editor \<lparr>isUpdatingFromProp = False, lastExternalValue = js ''old'',
          editor = Some (js ''<p>old</p>''), emitted = [], pendingTimeouts = 0\<rparr> \<noteq> None \<and>
   js ''new'' \<noteq> lastExternalValue \<lparr>isUpdatingFromProp = False, lastExternalValue = js ''old'',
          editor = Some (js ''<p>old</p>''), emitted = [], pendingTimeouts = 0\<rparr> \<and>
   onUpdate (\<lambda>h. h) (js ''typed'')
     (externalValueChange (\<lambda>m. m) (js ''new'')
        \<lparr>isUpdatingFromProp = False, lastExternalValue = js ''old'',
          editor = Some (js ''<p>old</p>''), emitted = [], pendingTimeouts = 0\<rparr>) =
     \<lparr>isUpdatingFromProp = True, lastExternalValue = js ''new'',
       editor = Some (js ''typed''), emitted = [], pendingTimeouts = 1\<rparr> \<and>
   onUpdate (\<lambda>h. h) (js ''typed'')
     (timeoutFires (externalValueChange (\<lambda>m. m) (js ''new'')
        \<lparr>isUpdatingFromProp = False, lastExternalValue = js ''old'',
          editor = Some (js ''<p>old</p>''), emitted = [], pendingTimeouts = 0\<rparr>)) =
     \<lparr>isUpdatingFromProp = False, lastExternalValue = js ''typed'',
       editor = Some (js ''typed''), emitted = [js ''typed''], pendingTimeouts = 0\<rparr>"
  using suppressed_edit_dropped [of "\<lparr>isUpdatingFromProp = False, lastExternalValue = js ''old'',
          editor = Some (js ''<p>old</p>''), emitted = [], pendingTimeouts = 0\<rparr>" "js ''new''" "\<lambda>m. m" "\<lambda>h. h" "js ''typed''"]
  by (simp add: sync_defs js_def Let_def)

section \<open>Date formatting\<close>




end
